theory Spec2Isabelle
  imports Complex_Main
begin

section \<open>Room EQ pipeline editor (public/src/room.js)\<close>

text \<open>
  The module draws one lane per channel of the linearized DSP configuration, one node per
  stage of the channel, and one wire between consecutive nodes of a lane. The embedding
  keeps the names of the JavaScript functions. Exceptions are values of type \<open>error\<close>;
  a function that can throw returns \<open>error + 'a\<close> with \<open>Inl\<close> for the exception.
\<close>

subsection \<open>JavaScript values\<close>

text \<open>
  Stage descriptors are plain data handed over by the DSP object, so they are modelled as
  JSON-like values. An object is an association list in the enumeration order of
  \<^verbatim>\<open>Object.keys\<close>, with distinct keys. Strings are ASCII.

  A number is given by the string that \<^verbatim>\<open>Number.prototype.toString\<close> returns for it:
  \<open>JNum ''1000''\<close>, \<open>JNum ''62.5''\<close>, \<open>JNum ''-3.5''\<close>, \<open>JNum ''1e+21''\<close>,
  \<open>JNum ''NaN''\<close>. That string is the engine's and determines the number up to the sign
  of zero (both zeros print as \<open>0\<close>), and the module does nothing with a number but
  print it, test it in a condition and compare the length of an array with 1.
\<close>

datatype jsval =
    JUndefined
  | JNull
  | JBool bool
  | JNum string
  | JStr string
  | JArr "jsval list"
  | JObj "(string \<times> jsval) list"

datatype error =
    TypeError (message: string)
  | DSPError (message: string)

definition bindE :: "error + 'a \<Rightarrow> ('a \<Rightarrow> error + 'b) \<Rightarrow> error + 'b" where
  "bindE r f = (case r of Inl e \<Rightarrow> Inl e | Inr x \<Rightarrow> f x)"

text \<open>
  Decimal digits of a non-negative integer: how a loop counter, an array index or an
  array length prints.
\<close>

fun numToString :: "nat \<Rightarrow> string" where
  "numToString n =
     (if n < 10 then [''0123456789'' ! n]
      else numToString (n div 10) @ [''0123456789'' ! (n mod 10)])"

declare numToString.simps [simp del]

fun joinComma :: "string list \<Rightarrow> string" where
  "joinComma [] = []"
| "joinComma [s] = s"
| "joinComma (s # t # ss) = s @ '','' @ joinComma (t # ss)"

text \<open>\<^verbatim>\<open>${v}\<close> in a template literal: the ToString conversion.\<close>

fun toString :: "jsval \<Rightarrow> string" where
  "toString JUndefined = ''undefined''"
| "toString JNull = ''null''"
| "toString (JBool b) = (if b then ''true'' else ''false'')"
| "toString (JNum text) = text"
| "toString (JStr s) = s"
| "toString (JArr vs) =
     joinComma (map (\<lambda>v. if v = JUndefined \<or> v = JNull then [] else toString v) vs)"
| "toString (JObj kvs) = ''[object Object]''"

text \<open>
  \<^verbatim>\<open>if (v)\<close> and \<^verbatim>\<open>!v\<close>: the ToBoolean conversion. The falsy numbers are the two
  zeros and NaN.
\<close>

fun truthy :: "jsval \<Rightarrow> bool" where
  "truthy JUndefined = False"
| "truthy JNull = False"
| "truthy (JBool b) = b"
| "truthy (JNum text) = (text \<noteq> ''0'' \<and> text \<noteq> ''NaN'')"
| "truthy (JStr s) = (s \<noteq> [])"
| "truthy (JArr vs) = True"
| "truthy (JObj kvs) = True"

text \<open>
  \<^verbatim>\<open>v.k\<close> and \<^verbatim>\<open>v[k]\<close> for the property names the module reads (\<open>type\<close>, \<open>device\<close>,
  \<open>format\<close>, \<open>sources\<close>, \<open>length\<close>, \<open>parameters\<close>, \<open>freq\<close>, \<open>gain\<close> and the name of
  a filter on the stage object). Reading a property of \<open>undefined\<close> or \<open>null\<close> throws a
  TypeError (the message texts are those of V8); a missing property is \<open>undefined\<close>.
\<close>

definition quoted :: "string \<Rightarrow> string" where
  "quoted k = CHR 0x27 # k @ [CHR 0x27]"

definition propertyOf :: "(string \<times> jsval) list \<Rightarrow> string \<Rightarrow> jsval" where
  "propertyOf kvs k = (case map_of kvs k of Some v \<Rightarrow> v | None \<Rightarrow> JUndefined)"

fun getProp :: "jsval \<Rightarrow> string \<Rightarrow> error + jsval" where
  "getProp JUndefined k =
     Inl (TypeError (''Cannot read properties of undefined (reading '' @ quoted k @ '')''))"
| "getProp JNull k =
     Inl (TypeError (''Cannot read properties of null (reading '' @ quoted k @ '')''))"
| "getProp (JObj kvs) k = Inr (propertyOf kvs k)"
| "getProp (JArr vs) k = Inr (if k = ''length'' then JNum (numToString (length vs)) else JUndefined)"
| "getProp (JStr s) k = Inr (if k = ''length'' then JNum (numToString (length s)) else JUndefined)"
| "getProp (JNum text) k = Inr JUndefined"
| "getProp (JBool b) k = Inr JUndefined"

text \<open>\<^verbatim>\<open>Object.keys(v)\<close>: the own enumerable property names.\<close>

fun objectKeys :: "jsval \<Rightarrow> error + string list" where
  "objectKeys JUndefined = Inl (TypeError ''Cannot convert undefined or null to object'')"
| "objectKeys JNull = Inl (TypeError ''Cannot convert undefined or null to object'')"
| "objectKeys (JObj kvs) = Inr (map fst kvs)"
| "objectKeys (JArr vs) = Inr (map numToString [0..<length vs])"
| "objectKeys (JStr s) = Inr (map numToString [0..<length s])"
| "objectKeys (JNum text) = Inr []"
| "objectKeys (JBool b) = Inr []"

text \<open>\<^verbatim>\<open>s.toUpperCase()\<close> on ASCII: a lower-case letter loses bit 5.\<close>

definition upperChar :: "char \<Rightarrow> char" where
  "upperChar c =
     (case c of Char b0 b1 b2 b3 b4 b5 b6 b7 \<Rightarrow>
        if 97 \<le> (of_char c :: nat) \<and> (of_char c :: nat) \<le> 122
        then Char b0 b1 b2 b3 b4 False b6 b7 else c)"

text \<open>
  \<^verbatim>\<open>component.type.toUpperCase()\<close>: only a string has the method; on \<open>undefined\<close>
  and \<open>null\<close> the property read throws, on every other value the call of \<open>undefined\<close>
  throws.
\<close>

fun toUpperCase :: "jsval \<Rightarrow> error + string" where
  "toUpperCase (JStr s) = Inr (map upperChar s)"
| "toUpperCase JUndefined =
     Inl (TypeError (''Cannot read properties of undefined (reading '' @ quoted ''toUpperCase'' @ '')''))"
| "toUpperCase JNull =
     Inl (TypeError (''Cannot read properties of null (reading '' @ quoted ''toUpperCase'' @ '')''))"
| "toUpperCase v = Inl (TypeError ''component.type.toUpperCase is not a function'')"

subsection \<open>formatNodeContent\<close>

definition nl :: string where
  "nl = [CHR 0x0A]"

definition spaces :: "nat \<Rightarrow> string" where
  "spaces n = replicate n (CHR '' '')"

definition nodeDetail :: "string \<Rightarrow> string" where
  \<open>nodeDetail txt = ''<div class="nodeDetail">'' @ txt @ ''</div>''\<close>

definition nodeDetailSmall :: "string \<Rightarrow> string" where
  \<open>nodeDetailSmall txt = ''<div class="nodeDetail small">'' @ txt @ ''</div>''\<close>

text \<open>
  The HTML string assigned to the content element. The template literals of the
  \<open>input\<close>, \<open>output\<close>, \<open>mixer\<close>, \<open>Gain\<close>, \<open>Conv\<close> and fallback branches span several
  source lines, so their line breaks and indentation are part of the string; the
  \<open>Biquad\<close> branch concatenates its lines without separators.
\<close>

definition formatNodeContent :: "jsval \<Rightarrow> error + string" where
  "formatNodeContent component =
     bindE (getProp component ''type'') (\<lambda>ty.
       if ty = JStr ''input'' \<or> ty = JStr ''output'' then
         bindE (getProp component ''device'') (\<lambda>dev.
         bindE (getProp dev ''device'') (\<lambda>devName.
         bindE (getProp dev ''format'') (\<lambda>devFormat.
           Inr (nl @ spaces 16 @ nodeDetail (toString devName) @
                nl @ spaces 16 @ nodeDetailSmall (toString devFormat) @
                nl @ spaces 12))))
       else if ty = JStr ''mixer'' then
         bindE (getProp component ''sources'') (\<lambda>sources.
         bindE (getProp sources ''length'') (\<lambda>sourceCount.
           Inr (nl @ spaces 16 @
                nodeDetail (toString sourceCount @ '' source'' @
                            (if sourceCount \<noteq> JNum ''1'' then ''s'' else '''')) @
                nl @ spaces 12)))
       else if ty = JStr ''filter'' then
         bindE (objectKeys component) (\<lambda>keys.
           case find (\<lambda>k. k \<noteq> ''type'') keys of
             None \<Rightarrow> Inr (nodeDetail ''Unknown'')
           | Some filterName \<Rightarrow>
               if \<not> truthy (JStr filterName) then Inr (nodeDetail ''Unknown'')
               else
                 bindE (getProp component filterName) (\<lambda>filter.
                 bindE (getProp filter ''parameters'') (\<lambda>params.
                 bindE (getProp filter ''type'') (\<lambda>ftype.
                   if ftype = JStr ''Biquad'' then
                     bindE (getProp params ''type'') (\<lambda>ptype.
                     bindE (getProp params ''freq'') (\<lambda>freq.
                     bindE (getProp params ''gain'') (\<lambda>gain.
                       Inr (nodeDetail filterName @
                            nodeDetailSmall (toString ptype) @
                            (if truthy freq then nodeDetailSmall (toString freq @ '' Hz'') else []) @
                            (if gain \<noteq> JUndefined then nodeDetailSmall (toString gain @ '' dB'') else [])))))
                   else if ftype = JStr ''Gain'' then
                     bindE (getProp params ''gain'') (\<lambda>gain.
                       Inr (nl @ spaces 20 @ nodeDetail filterName @
                            nl @ spaces 20 @ nodeDetailSmall (''Gain: '' @ toString gain @ '' dB'') @
                            nl @ spaces 16))
                   else if ftype = JStr ''Conv'' then
                     Inr (nl @ spaces 20 @ nodeDetail filterName @
                          nl @ spaces 20 @ nodeDetailSmall ''Convolution'' @
                          nl @ spaces 16)
                   else
                     Inr (nl @ spaces 20 @ nodeDetail filterName @
                          nl @ spaces 20 @ nodeDetailSmall (toString ftype) @
                          nl @ spaces 16)))))
       else Inr (nodeDetail ''Unknown''))"

subsection \<open>The elements of a lane\<close>

text \<open>
  A node element: its two data attributes, its inline style (pixels) and its children in
  the order of the \<^verbatim>\<open>appendChild\<close> calls. The content child keeps the HTML string assigned
  to \<^verbatim>\<open>innerHTML\<close>; a connector child keeps its class name.
\<close>

datatype nodeChild =
    NodeHeader string
  | NodeContent string
  | Connector string

record node =
  data_type :: string
  data_channel :: nat
  style_left :: nat
  style_width :: nat
  style_height :: nat
  children :: "nodeChild list"

definition nodeWidth :: nat where "nodeWidth = 120"
definition nodeHeight :: nat where "nodeHeight = 80"
definition nodeSpacing :: nat where "nodeSpacing = 20"
definition laneHeight :: nat where "laneHeight = 120"

definition createNode :: "jsval \<Rightarrow> nat \<Rightarrow> nat \<Rightarrow> error + node" where
  "createNode component channelNo xPos =
     bindE (getProp component ''type'') (\<lambda>ty.
     bindE (toUpperCase ty) (\<lambda>header.
     bindE (formatNodeContent component) (\<lambda>content.
       Inr \<lparr> data_type = toString ty,
             data_channel = channelNo,
             style_left = xPos,
             style_width = nodeWidth,
             style_height = nodeHeight,
             children =
               [NodeHeader header, NodeContent content] @
               (if ty \<noteq> JStr ''input'' then [Connector ''connector left''] else []) @
               (if ty \<noteq> JStr ''output'' then [Connector ''connector right''] else []) \<rparr>)))"

definition hasLeftConnector :: "node \<Rightarrow> bool" where
  "hasLeftConnector n = (Connector ''connector left'' \<in> set (children n))"

definition hasRightConnector :: "node \<Rightarrow> bool" where
  "hasRightConnector n = (Connector ''connector right'' \<in> set (children n))"

definition headerText :: "node \<Rightarrow> string list" where
  "headerText n = [t. NodeHeader t \<leftarrow> children n]"

definition contentHtml :: "node \<Rightarrow> string list" where
  "contentHtml n = [h. NodeContent h \<leftarrow> children n]"


subsection \<open>Wires\<close>

text \<open>
  \<^verbatim>\<open>getBoundingClientRect\<close> is the browser's layout: the model takes it as a parameter, the
  rectangle of every node and of the node container. The browser's coordinates are IEEE
  doubles; the model computes with real numbers and so says nothing about rounding.
\<close>

record rect =
  rect_left :: real
  rect_top :: real
  rect_right :: real
  rect_height :: real

record layout =
  nodeRect :: "node \<Rightarrow> rect"
  containerRect :: rect

text \<open>A wire element: the inline style set by \<open>createWire\<close> (pixels, degrees).\<close>

record wire =
  wire_left :: real
  wire_top :: real
  wire_width :: real
  wire_rotate :: real

datatype containerChild = NodeEl node | WireEl wire

type_synonym nodeContainer = "containerChild list"

fun isWire :: "containerChild \<Rightarrow> bool" where
  "isWire (WireEl w) = True"
| "isWire (NodeEl n) = False"

text \<open>\<^verbatim>\<open>Math.atan2(y, x)\<close> on real numbers.\<close>

definition atan2 :: "real \<Rightarrow> real \<Rightarrow> real" where
  "atan2 y x =
     (if 0 < x then arctan (y / x)
      else if x < 0 then (if 0 \<le> y then arctan (y / x) + pi else arctan (y / x) - pi)
      else if 0 < y then pi / 2
      else if y < 0 then - (pi / 2)
      else 0)"

text \<open>The geometry of \<open>createWire\<close>, once the three rectangles are measured.\<close>

definition wireGeometry :: "layout \<Rightarrow> node \<Rightarrow> node \<Rightarrow> wire" where
  "wireGeometry L fromNode toNode =
     (let fromRect = nodeRect L fromNode;
          toRect = nodeRect L toNode;
          fromX = rect_right fromRect - rect_left (containerRect L);
          fromY = rect_top fromRect + rect_height fromRect / 2 - rect_top (containerRect L);
          toX = rect_left toRect - rect_left (containerRect L);
          toY = rect_top toRect + rect_height toRect / 2 - rect_top (containerRect L);
          deltaX = toX - fromX;
          deltaY = toY - fromY;
          len = sqrt (deltaX * deltaX + deltaY * deltaY);
          angle = atan2 deltaY deltaX * 180 / pi
      in \<lparr> wire_left = fromX, wire_top = fromY, wire_width = len, wire_rotate = angle \<rparr>)"

text \<open>
  \<^verbatim>\<open>fromNode.parentElement\<close>: in this module a node is only ever appended to the node
  container of its lane, so a node that is not a child of the container at hand has no
  parent, and measuring the parent throws.
\<close>

definition parentElement :: "nodeContainer \<Rightarrow> node \<Rightarrow> nodeContainer option" where
  "parentElement container n = (if NodeEl n \<in> set container then Some container else None)"

definition createWire :: "layout \<Rightarrow> nodeContainer option \<Rightarrow> node \<Rightarrow> node \<Rightarrow> error + wire" where
  "createWire L parent fromNode toNode =
     (case parent of
        None \<Rightarrow>
          Inl (TypeError (''Cannot read properties of null (reading '' @
                          quoted ''getBoundingClientRect'' @ '')''))
      | Some p \<Rightarrow> Inr (wireGeometry L fromNode toNode))"

text \<open>
  \<open>drawWires\<close>: remove the wires of the container, then append one wire for each
  consecutive pair. \<open>wireLoop\<close> is the \<^verbatim>\<open>for\<close> loop, on the nodes from index \<open>i\<close> on. A
  TypeError ends the call; the model then drops the half-updated container.
\<close>

fun wireLoop :: "layout \<Rightarrow> nodeContainer \<Rightarrow> node list \<Rightarrow> error + nodeContainer" where
  "wireLoop L container (fromNode # toNode # rest) =
     bindE (createWire L (parentElement container fromNode) fromNode toNode) (\<lambda>wire.
       wireLoop L (container @ [WireEl wire]) (toNode # rest))"
| "wireLoop L container nodes = Inr container"

definition drawWires :: "layout \<Rightarrow> nodeContainer \<Rightarrow> node list \<Rightarrow> error + nodeContainer" where
  "drawWires L container nodes = wireLoop L (filter (\<lambda>c. \<not> isWire c) container) nodes"

subsection \<open>Lanes\<close>

text \<open>
  A lane element: its data attribute, its height, the text of its label child and its
  node container child.
\<close>

record lane =
  lane_data_channel :: nat
  lane_style_height :: nat
  laneLabel :: string
  nodeContainer :: nodeContainer

text \<open>
  \<open>nodeLoop\<close> is the \<^verbatim>\<open>for\<close> loop of \<open>createLane\<close> with its three mutable variables:
  \<open>xPos\<close>, the children of the node container and the array \<open>nodes\<close>.
\<close>

fun nodeLoop ::
  "nat \<Rightarrow> nat \<Rightarrow> jsval list \<Rightarrow> nodeContainer \<Rightarrow> node list \<Rightarrow> error + (nodeContainer \<times> node list)" where
  "nodeLoop channelNo xPos [] container nodes = Inr (container, nodes)"
| "nodeLoop channelNo xPos (component # rest) container nodes =
     bindE (createNode component channelNo xPos) (\<lambda>node.
       nodeLoop channelNo (xPos + (nodeWidth + nodeSpacing)) rest
         (container @ [NodeEl node]) (nodes @ [node]))"

text \<open>
  \<open>createLane\<close> returns the lane together with the array \<open>nodes\<close> that the callback
  passed to \<^verbatim>\<open>requestAnimationFrame\<close> has captured; \<open>animationFrame\<close> is that callback,
  run on the lane's own node container.
\<close>

definition createLane :: "nat \<Rightarrow> jsval list \<Rightarrow> error + (lane \<times> node list)" where
  "createLane channelNo components =
     bindE (nodeLoop channelNo 10 components [] []) (\<lambda>(container, nodes).
       Inr (\<lparr> lane_data_channel = channelNo,
               lane_style_height = laneHeight,
               laneLabel = ''Channel '' @ numToString channelNo,
               nodeContainer = container \<rparr>, nodes))"

definition animationFrame :: "layout \<Rightarrow> lane \<times> node list \<Rightarrow> error + lane" where
  "animationFrame L req =
     (case req of (lane, nodes) \<Rightarrow>
        bindE (drawWires L (nodeContainer lane) nodes) (\<lambda>container.
          Inr (lane\<lparr>nodeContainer := container\<rparr>)))"

subsection \<open>The page: module state, render and refresh\<close>

text \<open>
  The module state is the content of the \<open>editor\<close> element (\<open>None\<close> when the document
  has no such element) and the variable \<open>lanes\<close>. The DSP object is the collaborator:
  the record gives what its two asynchronous calls settle to during one call of the
  module. The lanes are kept as built: their frame callbacks are modelled per lane by
  \<open>animationFrame\<close>.
\<close>

datatype editorChild = LaneEl lane | ErrorPanel string

record state =
  editor :: "editorChild list option"
  lanes :: "lane list"

record dsp =
  connected :: bool
  downloadConfig :: "error + unit"
  linearizeConfig :: "error + jsval list list"

definition showError :: "string \<Rightarrow> state \<Rightarrow> state" where
  "showError msg s =
     (case editor s of
        None \<Rightarrow> s
      | Some cs \<Rightarrow> s\<lparr>editor := Some [ErrorPanel msg]\<rparr>)"

text \<open>The \<^verbatim>\<open>for\<close> loop of \<open>renderPipeline\<close>, from channel \<open>channelNo\<close> on.\<close>

fun renderLanes :: "nat \<Rightarrow> jsval list list \<Rightarrow> state \<Rightarrow> (error + unit) \<times> state" where
  "renderLanes channelNo [] s = (Inr (), s)"
| "renderLanes channelNo (components # rest) s =
     (case createLane channelNo components of
        Inl e \<Rightarrow> (Inl e, s)
      | Inr (lane, nodes) \<Rightarrow>
          renderLanes (Suc channelNo) rest
            (s\<lparr>editor := map_option (\<lambda>cs. cs @ [LaneEl lane]) (editor s),
               lanes := lanes s @ [lane]\<rparr>))"

text \<open>
  An asynchronous function returns how its promise settles (\<open>Inl\<close>: rejected) and the
  module state it leaves behind.
\<close>

definition renderPipeline :: "dsp \<Rightarrow> state \<Rightarrow> (error + unit) \<times> state" where
  "renderPipeline d s =
     (case editor s of
        None \<Rightarrow> (Inr (), s)
      | Some cs \<Rightarrow>
          (let s1 = s\<lparr>editor := Some [], lanes := []\<rparr> in
           case linearizeConfig d of
             Inl e \<Rightarrow> (Inl e, s1)
           | Inr channels \<Rightarrow> renderLanes 0 channels s1))"

definition roomOnLoad :: "dsp option \<Rightarrow> state \<Rightarrow> state" where
  "roomOnLoad D s =
     (case D of
        None \<Rightarrow> showError ''Not connected to DSP. Please connect from the Connections page.'' s
      | Some d \<Rightarrow>
          if \<not> connected d
          then showError ''Not connected to DSP. Please connect from the Connections page.'' s
          else
            (case downloadConfig d of
               Inl e \<Rightarrow> showError (''Error loading DSP configuration: '' @ message e) s
             | Inr u \<Rightarrow>
                 (case renderPipeline d s of
                    (Inl e, s') \<Rightarrow> showError (''Error loading DSP configuration: '' @ message e) s'
                  | (Inr v, s') \<Rightarrow> s')))"

definition refreshPipeline :: "dsp option \<Rightarrow> state \<Rightarrow> (error + unit) \<times> state" where
  "refreshPipeline D s =
     (case D of
        None \<Rightarrow>
          (Inl (TypeError (''Cannot read properties of undefined (reading '' @
                           quoted ''downloadConfig'' @ '')'')), s)
      | Some d \<Rightarrow>
          (case downloadConfig d of
             Inl e \<Rightarrow> (Inl e, s)
           | Inr u \<Rightarrow> renderPipeline d s))"

subsection \<open>Refresh calls in flight\<close>

text \<open>
  A call of \<open>refreshPipeline\<close> runs in three pieces, separated by its two \<^verbatim>\<open>await\<close>s:
  it calls \<open>downloadConfig\<close>; resumed, it looks the editor up, clears it, empties
  \<open>lanes\<close> and calls \<open>linearizeConfig\<close>; resumed again, it appends the lanes. Each piece
  runs to its end on the single UI thread. When a pending \<^verbatim>\<open>await\<close> resumes is decided
  by the promise of the DSP object, so two calls in flight are run by a schedule: the
  list of which call (\<open>False\<close> the first, \<open>True\<close> the second) resumes next.
\<close>

datatype pc = Start | AwaitDownload | AwaitLinearize | Finished | Failed error

fun resume :: "dsp \<Rightarrow> pc \<times> state \<Rightarrow> pc \<times> state" where
  "resume d (Start, s) = (AwaitDownload, s)"
| "resume d (AwaitDownload, s) =
     (case downloadConfig d of
        Inl e \<Rightarrow> (Failed e, s)
      | Inr u \<Rightarrow>
          (case editor s of
             None \<Rightarrow> (Finished, s)
           | Some cs \<Rightarrow> (AwaitLinearize, s\<lparr>editor := Some [], lanes := []\<rparr>)))"
| "resume d (AwaitLinearize, s) =
     (case linearizeConfig d of
        Inl e \<Rightarrow> (Failed e, s)
      | Inr channels \<Rightarrow>
          (case renderLanes 0 channels s of
             (Inl e, s') \<Rightarrow> (Failed e, s')
           | (Inr v, s') \<Rightarrow> (Finished, s')))"
| "resume d (Finished, s) = (Finished, s)"
| "resume d (Failed e, s) = (Failed e, s)"

fun run2 :: "dsp \<Rightarrow> dsp \<Rightarrow> bool list \<Rightarrow> pc \<times> pc \<times> state \<Rightarrow> pc \<times> pc \<times> state" where
  "run2 dA dB [] cfg = cfg"
| "run2 dA dB (second # sched) (pcA, pcB, s) =
     (if second
      then (case resume dB (pcB, s) of (pcB', s') \<Rightarrow> run2 dA dB sched (pcA, pcB', s'))
      else (case resume dA (pcA, s) of (pcA', s') \<Rightarrow> run2 dA dB sched (pcA', pcB, s')))"

subsection \<open>Vocabulary of the properties\<close>

text \<open>The node children and the wire children of a node container, in document order.\<close>

fun nodesOf :: "nodeContainer \<Rightarrow> node list" where
  "nodesOf [] = []"
| "nodesOf (NodeEl n # rest) = n # nodesOf rest"
| "nodesOf (WireEl w # rest) = nodesOf rest"

fun wiresIn :: "nodeContainer \<Rightarrow> wire list" where
  "wiresIn [] = []"
| "wiresIn (NodeEl n # rest) = wiresIn rest"
| "wiresIn (WireEl w # rest) = w # wiresIn rest"

text \<open>The wires between the consecutive nodes of a list.\<close>

fun wiresOf :: "layout \<Rightarrow> node list \<Rightarrow> wire list" where
  "wiresOf L (fromNode # toNode # rest) = wireGeometry L fromNode toNode # wiresOf L (toNode # rest)"
| "wiresOf L nodes = []"

text \<open>
  \<open>drawWires\<close> called once per layout of the list, each time on the container the call
  before left behind and with the same nodes.
\<close>

fun drawWiresEach :: "layout list \<Rightarrow> nodeContainer \<Rightarrow> node list \<Rightarrow> error + nodeContainer" where
  "drawWiresEach [] container nodes = Inr container"
| "drawWiresEach (L # layouts) container nodes =
     bindE (drawWires L container nodes) (\<lambda>container'. drawWiresEach layouts container' nodes)"

text \<open>
  The shape of a stage descriptor in the linearized configuration: an object with a
  string \<open>type\<close>; an \<open>input\<close> or \<open>output\<close> carries a device object, a \<open>mixer\<close> an array
  of sources, and the named key of a \<open>filter\<close>, when there is one, an object with a
  parameters object. Any other type is allowed.
\<close>

fun isObject :: "jsval \<Rightarrow> bool" where
  "isObject (JObj kvs) = True"
| "isObject v = False"

fun isArray :: "jsval \<Rightarrow> bool" where
  "isArray (JArr vs) = True"
| "isArray v = False"

definition stageDescriptor :: "jsval \<Rightarrow> bool" where
  "stageDescriptor c =
     (case c of
        JObj kvs \<Rightarrow>
          (case propertyOf kvs ''type'' of
             JStr t \<Rightarrow>
               if t = ''input'' \<or> t = ''output'' then isObject (propertyOf kvs ''device'')
               else if t = ''mixer'' then isArray (propertyOf kvs ''sources'')
               else if t = ''filter'' then
                 (case find (\<lambda>k. k \<noteq> ''type'') (map fst kvs) of
                    None \<Rightarrow> True
                  | Some filterName \<Rightarrow>
                      (case propertyOf kvs filterName of
                         JObj fkvs \<Rightarrow> isObject (propertyOf fkvs ''parameters'')
                       | v \<Rightarrow> False))
               else True
           | v \<Rightarrow> False)
      | v \<Rightarrow> False)"

text \<open>The lanes one render pass builds for the channels from \<open>channelNo\<close> on.\<close>

fun buildLanes :: "nat \<Rightarrow> jsval list list \<Rightarrow> error + lane list" where
  "buildLanes channelNo [] = Inr []"
| "buildLanes channelNo (components # rest) =
     bindE (createLane channelNo components) (\<lambda>(lane, nodes).
     bindE (buildLanes (Suc channelNo) rest) (\<lambda>ls. Inr (lane # ls)))"

text \<open>
  The pieces of a schedule, each with the number of the piece within its call: 0 calls
  \<open>downloadConfig\<close>, 1 clears the editor, 2 appends the lanes. \<open>visibleCalls\<close> lists
  the calls that append after the last clearing, in the order in which they append.
\<close>

fun steps :: "bool list \<Rightarrow> nat \<Rightarrow> nat \<Rightarrow> (bool \<times> nat) list" where
  "steps [] a b = []"
| "steps (second # sched) a b =
     (if second then (True, b) # steps sched a (Suc b) else (False, a) # steps sched (Suc a) b)"

definition visibleCalls :: "bool list \<Rightarrow> bool list" where
  "visibleCalls sched =
     map fst (filter (\<lambda>ev. snd ev = 2)
       (rev (takeWhile (\<lambda>ev. snd ev \<noteq> 1) (rev (steps sched 0 0)))))"

text \<open>All schedules with \<open>a\<close> pieces of the first call and \<open>b\<close> of the second.\<close>

fun interleavings :: "nat \<Rightarrow> nat \<Rightarrow> bool list list" where
  "interleavings 0 0 = [[]]"
| "interleavings (Suc a) 0 = map ((#) False) (interleavings a 0)"
| "interleavings 0 (Suc b) = map ((#) True) (interleavings 0 b)"
| "interleavings (Suc a) (Suc b) =
     map ((#) False) (interleavings a (Suc b)) @ map ((#) True) (interleavings (Suc a) b)"

text \<open>
  Sample data: the three stages of a channel (a capture device, a low shelf, a playback
  device), a layout that puts the nodes of a lane in one row, a DSP object that delivers
  one channel with the capture device only, and the node and the lane of that channel.
\<close>

definition inputStage :: jsval where
  "inputStage =
     JObj [(''type'', JStr ''input''),
           (''device'', JObj [(''device'', JStr ''hw:0''), (''format'', JStr ''S32LE'')])]"

definition lowShelfStage :: jsval where
  "lowShelfStage =
     JObj [(''type'', JStr ''filter''),
           (''Low Shelf'', JObj [(''type'', JStr ''Biquad''),
              (''parameters'', JObj [(''type'', JStr ''Lowshelf''), (''freq'', JNum ''100''), (''gain'', JNum ''3'')])])]"

definition outputStage :: jsval where
  "outputStage =
     JObj [(''type'', JStr ''output''),
           (''device'', JObj [(''device'', JStr ''hw:1''), (''format'', JStr ''S32LE'')])]"

definition rowLayout :: layout where
  "rowLayout =
     \<lparr> nodeRect = (\<lambda>n. \<lparr> rect_left = real (style_left n), rect_top = 20,
                          rect_right = real (style_left n + style_width n),
                          rect_height = real (style_height n) \<rparr>),
       containerRect = \<lparr> rect_left = 0, rect_top = 0, rect_right = 1000, rect_height = 120 \<rparr> \<rparr>"

definition oneChannelDsp :: dsp where
  "oneChannelDsp = \<lparr> connected = True, downloadConfig = Inr (), linearizeConfig = Inr [[inputStage]] \<rparr>"

definition inputNode :: node where
  "inputNode =
     \<lparr> data_type = ''input'', data_channel = 0, style_left = 10,
       style_width = 120, style_height = 80,
       children =
         [NodeHeader ''INPUT'',
          NodeContent (nl @ spaces 16 @ nodeDetail ''hw:0'' @
                       nl @ spaces 16 @ nodeDetailSmall ''S32LE'' @
                       nl @ spaces 12),
          Connector ''connector right''] \<rparr>"

definition inputLane :: lane where
  "inputLane =
     \<lparr> lane_data_channel = 0, lane_style_height = 120, laneLabel = ''Channel 0'',
       nodeContainer = [NodeEl inputNode] \<rparr>"

section \<open>Properties\<close>

subsection \<open>Auxiliary facts\<close>

lemma bindE_Inr_iff: "bindE r f = Inr y \<longleftrightarrow> (\<exists>x. r = Inr x \<and> f x = Inr y)"
  by (cases r) (simp_all add: bindE_def)

lemma bindE_simps: "bindE (Inr x) f = f x" "bindE (Inl e) f = Inl e"
  by (simp_all add: bindE_def)

lemma nodesOf_append [simp]: "nodesOf (xs @ ys) = nodesOf xs @ nodesOf ys"
  by (induction xs rule: nodesOf.induct) simp_all

lemma wiresIn_append [simp]: "wiresIn (xs @ ys) = wiresIn xs @ wiresIn ys"
  by (induction xs rule: wiresIn.induct) simp_all

lemma nodesOf_map_NodeEl [simp]: "nodesOf (map NodeEl ns) = ns"
  by (induction ns) simp_all

lemma nodesOf_map_WireEl [simp]: "nodesOf (map WireEl ws) = []"
  by (induction ws) simp_all

lemma wiresIn_map_NodeEl [simp]: "wiresIn (map NodeEl ns) = []"
  by (induction ns) simp_all

lemma wiresIn_map_WireEl [simp]: "wiresIn (map WireEl ws) = ws"
  by (induction ws) simp_all

lemma filter_not_isWire_nodes [simp]: "filter (\<lambda>c. \<not> isWire c) (map NodeEl ns) = map NodeEl ns"
  by (induction ns) simp_all

lemma filter_not_isWire_wires [simp]: "filter (\<lambda>c. \<not> isWire c) (map WireEl ws) = []"
  by (induction ws) simp_all

lemma nodesOf_filter [simp]: "nodesOf (filter (\<lambda>c. \<not> isWire c) container) = nodesOf container"
  by (induction container rule: nodesOf.induct) simp_all

lemma length_wiresOf: "length (wiresOf L nodes) = length nodes - 1"
  by (induction L nodes rule: wiresOf.induct) simp_all

lemma nth_wiresOf:
  "Suc i < length nodes \<Longrightarrow> wiresOf L nodes ! i = wireGeometry L (nodes ! i) (nodes ! Suc i)"
proof (induction L nodes arbitrary: i rule: wiresOf.induct)
  case (1 L fromNode toNode rest)
  then show ?case by (cases i) simp_all
qed simp_all

subsection \<open>Nodes\<close>

lemma createNode_Inr:
  assumes "createNode component channelNo xPos = Inr n"
  obtains s content where
    "getProp component ''type'' = Inr (JStr s)"
    "formatNodeContent component = Inr content"
    "n = \<lparr> data_type = s, data_channel = channelNo, style_left = xPos,
           style_width = nodeWidth, style_height = nodeHeight,
           children = [NodeHeader (map upperChar s), NodeContent content] @
             (if s \<noteq> ''input'' then [Connector ''connector left''] else []) @
             (if s \<noteq> ''output'' then [Connector ''connector right''] else []) \<rparr>"
proof -
  from assms obtain ty header content where
    ty: "getProp component ''type'' = Inr ty" and
    h: "toUpperCase ty = Inr header" and
    c: "formatNodeContent component = Inr content" and
    n: "n = \<lparr> data_type = toString ty, data_channel = channelNo, style_left = xPos,
             style_width = nodeWidth, style_height = nodeHeight,
             children = [NodeHeader header, NodeContent content] @
               (if ty \<noteq> JStr ''input'' then [Connector ''connector left''] else []) @
               (if ty \<noteq> JStr ''output'' then [Connector ''connector right''] else []) \<rparr>"
    unfolding createNode_def bindE_Inr_iff by auto
  from h obtain s where s: "ty = JStr s" "header = map upperChar s" by (cases ty) auto
  show thesis
    by (rule that [of s content]) (use ty c n s in simp_all)
qed

lemma createNode_style_left: "createNode component channelNo xPos = Inr n \<Longrightarrow> style_left n = xPos"
  by (erule createNode_Inr) simp

text \<open>
  C7. The node built for a stage lacks the left connector exactly when the stage type is
  \<open>input\<close> and lacks the right connector exactly when it is \<open>output\<close>; a node of any
  other type, recognised or not, has both.
\<close>

theorem createNode_connectors:
  assumes "createNode component channelNo xPos = Inr n"
  shows "(\<not> hasLeftConnector n \<longleftrightarrow> getProp component ''type'' = Inr (JStr ''input'')) \<and>
         (\<not> hasRightConnector n \<longleftrightarrow> getProp component ''type'' = Inr (JStr ''output'')) \<and>
         (\<not> hasLeftConnector n \<longleftrightarrow> data_type n = ''input'') \<and>
         (\<not> hasRightConnector n \<longleftrightarrow> data_type n = ''output'')"
  using assms
  by (elim createNode_Inr) (simp add: hasLeftConnector_def hasRightConnector_def)

lemma createNode_inputStage: "createNode inputStage 0 10 = Inr inputNode"
  by (simp add: createNode_def formatNodeContent_def inputStage_def inputNode_def bindE_simps
      propertyOf_def upperChar_def nodeWidth_def nodeHeight_def)

theorem createNode_connectors_witness:
  "createNode inputStage 0 10 = Inr inputNode \<and>
   \<not> hasLeftConnector inputNode \<and> hasRightConnector inputNode"
  using createNode_connectors [OF createNode_inputStage] createNode_inputStage
  by (simp add: inputStage_def propertyOf_def)

subsection \<open>Stage formatting\<close>

text \<open>
  C5, as amended. For a filter stage with a non-empty display name whose filter object has
  type \<open>Biquad\<close> and a parameters object, the content is, in order: the display name,
  the sub-filter kind, the line \<open>freq Hz\<close> exactly when the freq parameter is truthy
  (so not for a frequency of 0), and the line \<open>gain dB\<close> exactly when the gain parameter
  is not \<open>undefined\<close> (so also for a gain of 0). Each parameter is printed as the
  template literal prints it, a number as the engine renders it, whole, fractional or
  in exponent form.
\<close>

theorem biquad_details:
  assumes "propertyOf kvs ''type'' = JStr ''filter''"
    and "find (\<lambda>k. k \<noteq> ''type'') (map fst kvs) = Some filterName"
    and "filterName \<noteq> []"
    and "propertyOf kvs filterName = JObj fkvs"
    and "propertyOf fkvs ''type'' = JStr ''Biquad''"
    and "propertyOf fkvs ''parameters'' = JObj pkvs"
  shows "formatNodeContent (JObj kvs) =
    Inr (nodeDetail filterName @
         nodeDetailSmall (toString (propertyOf pkvs ''type'')) @
         (if truthy (propertyOf pkvs ''freq'')
          then nodeDetailSmall (toString (propertyOf pkvs ''freq'') @ '' Hz'') else []) @
         (if propertyOf pkvs ''gain'' \<noteq> JUndefined
          then nodeDetailSmall (toString (propertyOf pkvs ''gain'') @ '' dB'') else []))"
  using assms
  by (simp add: formatNodeContent_def bindE_simps)

theorem biquad_details_witness:
  "formatNodeContent
     (JObj [(''type'', JStr ''filter''),
            (''EQ'', JObj [(''type'', JStr ''Biquad''),
               (''parameters'', JObj [(''type'', JStr ''Peaking''), (''freq'', JNum ''1000''), (''gain'', JNum ''0'')])])]) =
   Inr (nodeDetail ''EQ'' @ nodeDetailSmall ''Peaking'' @ nodeDetailSmall ''1000 Hz'' @ nodeDetailSmall ''0 dB'') \<and>
   formatNodeContent
     (JObj [(''type'', JStr ''filter''),
            (''Cut'', JObj [(''type'', JStr ''Biquad''),
               (''parameters'', JObj [(''type'', JStr ''Peaking''), (''freq'', JNum ''62.5''), (''gain'', JNum ''-3.5'')])])]) =
   Inr (nodeDetail ''Cut'' @ nodeDetailSmall ''Peaking'' @ nodeDetailSmall ''62.5 Hz'' @ nodeDetailSmall ''-3.5 dB'')"
  using
    biquad_details [of
      "[(''type'', JStr ''filter''),
        (''EQ'', JObj [(''type'', JStr ''Biquad''),
           (''parameters'', JObj [(''type'', JStr ''Peaking''), (''freq'', JNum ''1000''), (''gain'', JNum ''0'')])])]"
      "''EQ''"
      "[(''type'', JStr ''Biquad''),
        (''parameters'', JObj [(''type'', JStr ''Peaking''), (''freq'', JNum ''1000''), (''gain'', JNum ''0'')])]"
      "[(''type'', JStr ''Peaking''), (''freq'', JNum ''1000''), (''gain'', JNum ''0'')]"]
    biquad_details [of
      "[(''type'', JStr ''filter''),
        (''Cut'', JObj [(''type'', JStr ''Biquad''),
           (''parameters'', JObj [(''type'', JStr ''Peaking''), (''freq'', JNum ''62.5''), (''gain'', JNum ''-3.5'')])])]"
      "''Cut''"
      "[(''type'', JStr ''Biquad''),
        (''parameters'', JObj [(''type'', JStr ''Peaking''), (''freq'', JNum ''62.5''), (''gain'', JNum ''-3.5'')])]"
      "[(''type'', JStr ''Peaking''), (''freq'', JNum ''62.5''), (''gain'', JNum ''-3.5'')]"]
  by (simp add: propertyOf_def)

text \<open>A frequency of 0 is present and prints no line, while the gain of 0 prints one.\<close>

theorem biquad_zero_freq_counterexample:
  "formatNodeContent
     (JObj [(''type'', JStr ''filter''),
            (''EQ'', JObj [(''type'', JStr ''Biquad''),
               (''parameters'', JObj [(''type'', JStr ''Peaking''), (''freq'', JNum ''0''), (''gain'', JNum ''0'')])])]) =
   Inr (nodeDetail ''EQ'' @ nodeDetailSmall ''Peaking'' @ nodeDetailSmall ''0 dB'') \<and>
   formatNodeContent
     (JObj [(''type'', JStr ''filter''),
            (''EQ'', JObj [(''type'', JStr ''Biquad''),
               (''parameters'', JObj [(''type'', JStr ''Peaking''), (''freq'', JNum ''0''), (''gain'', JNum ''0'')])])]) \<noteq>
   Inr (nodeDetail ''EQ'' @ nodeDetailSmall ''Peaking'' @ nodeDetailSmall ''0 Hz'' @ nodeDetailSmall ''0 dB'')"
  by (simp add: formatNodeContent_def bindE_simps propertyOf_def
      nodeDetail_def nodeDetailSmall_def)

text \<open>
  C6, as amended. A filter stage whose object has no key other than \<open>type\<close> is formatted
  without an error: the content is the single detail \<open>Unknown\<close>, and the header of its
  node is the upper-cased stage type, \<open>FILTER\<close>.
\<close>

theorem unknown_filter:
  assumes "propertyOf kvs ''type'' = JStr ''filter''"
    and "\<forall>k \<in> set (map fst kvs). k = ''type''"
  shows "formatNodeContent (JObj kvs) = Inr (nodeDetail ''Unknown'') \<and>
         (\<exists>n. createNode (JObj kvs) channelNo xPos = Inr n \<and>
              headerText n = [''FILTER''] \<and> contentHtml n = [nodeDetail ''Unknown''])"
proof -
  from assms(2) have none: "find (\<lambda>k. k \<noteq> ''type'') (map fst kvs) = None"
    by (simp add: find_None_iff)
  have fmt: "formatNodeContent (JObj kvs) = Inr (nodeDetail ''Unknown'')"
    using assms(1) none by (simp add: formatNodeContent_def bindE_simps)
  show ?thesis
    using assms(1) fmt
    by (simp add: createNode_def bindE_simps headerText_def contentHtml_def upperChar_def)
qed

theorem unknown_filter_witness:
  "formatNodeContent (JObj [(''type'', JStr ''filter'')]) = Inr (nodeDetail ''Unknown'') \<and>
   (\<exists>n. createNode (JObj [(''type'', JStr ''filter'')]) 2 150 = Inr n \<and>
        headerText n = [''FILTER''] \<and> contentHtml n = [nodeDetail ''Unknown''])"
  using unknown_filter [of "[(''type'', JStr ''filter'')]" 2 150]
  by (simp add: propertyOf_def)

text \<open>The header of such a node is not \<open>Unknown\<close>.\<close>

theorem unknown_filter_header_counterexample:
  "createNode (JObj [(''type'', JStr ''filter'')]) 0 10 =
     Inr \<lparr> data_type = ''filter'', data_channel = 0, style_left = 10,
           style_width = 120, style_height = 80,
           children = [NodeHeader ''FILTER'', NodeContent (nodeDetail ''Unknown''),
                       Connector ''connector left'', Connector ''connector right''] \<rparr> \<and>
   NodeHeader ''FILTER'' \<noteq> NodeHeader ''Unknown''"
  by (simp add: createNode_def formatNodeContent_def bindE_simps propertyOf_def upperChar_def
      nodeWidth_def nodeHeight_def)

subsection \<open>Lanes\<close>

lemma nodeLoop_Inr:
  "nodeLoop channelNo xPos components container nodes = Inr (container', nodes') \<Longrightarrow>
   \<exists>new. length new = length components \<and> container' = container @ map NodeEl new \<and>
     nodes' = nodes @ new \<and>
     (\<forall>i < length new.
        createNode (components ! i) channelNo (xPos + i * (nodeWidth + nodeSpacing)) = Inr (new ! i))"
proof (induction components arbitrary: xPos container nodes)
  case Nil
  then show ?case by simp
next
  case (Cons component rest)
  from Cons.prems obtain node where
    node: "createNode component channelNo xPos = Inr node" and
    loop: "nodeLoop channelNo (xPos + (nodeWidth + nodeSpacing)) rest
             (container @ [NodeEl node]) (nodes @ [node]) = Inr (container', nodes')"
    by (auto simp: bindE_Inr_iff)
  from Cons.IH [OF loop] obtain new where
    new: "length new = length rest" "container' = (container @ [NodeEl node]) @ map NodeEl new"
      "nodes' = (nodes @ [node]) @ new"
      "\<forall>i < length new. createNode (rest ! i) channelNo
         (xPos + (nodeWidth + nodeSpacing) + i * (nodeWidth + nodeSpacing)) = Inr (new ! i)"
    by blast
  have "createNode ((component # rest) ! i) channelNo (xPos + i * (nodeWidth + nodeSpacing)) =
        Inr ((node # new) ! i)" if "i < length (node # new)" for i
    using that node new(4) by (cases i) (simp_all add: algebra_simps)
  with new show ?case
    by (intro exI [of _ "node # new"]) simp
qed

lemma createLane_Inr:
  assumes "createLane channelNo components = Inr (lane, nodes)"
  shows "length nodes = length components"
    and "nodeContainer lane = map NodeEl nodes"
    and "laneLabel lane = ''Channel '' @ numToString channelNo"
    and "lane_data_channel lane = channelNo"
    and "\<forall>i < length nodes.
           createNode (components ! i) channelNo (10 + i * (nodeWidth + nodeSpacing)) = Inr (nodes ! i)"
proof -
  from assms obtain container where
    loop: "nodeLoop channelNo 10 components [] [] = Inr (container, nodes)" and
    lane: "lane = \<lparr> lane_data_channel = channelNo, lane_style_height = laneHeight,
               laneLabel = ''Channel '' @ numToString channelNo, nodeContainer = container \<rparr>"
    unfolding createLane_def bindE_Inr_iff by auto
  from nodeLoop_Inr [OF loop] obtain new where
    new: "length new = length components" "container = [] @ map NodeEl new" "nodes = [] @ new"
      "\<forall>i < length new.
         createNode (components ! i) channelNo (10 + i * (nodeWidth + nodeSpacing)) = Inr (new ! i)"
    by blast
  from new lane show "length nodes = length components" "nodeContainer lane = map NodeEl nodes"
    "laneLabel lane = ''Channel '' @ numToString channelNo" "lane_data_channel lane = channelNo"
    "\<forall>i < length nodes.
       createNode (components ! i) channelNo (10 + i * (nodeWidth + nodeSpacing)) = Inr (nodes ! i)"
    by simp_all
qed

lemma wireLoop_attached:
  "\<forall>n \<in> set nodes. NodeEl n \<in> set container \<Longrightarrow>
   wireLoop L container nodes = Inr (container @ map WireEl (wiresOf L nodes))"
proof (induction L container nodes rule: wireLoop.induct)
  case (1 L container fromNode toNode rest)
  then show ?case
    by (simp add: createWire_def parentElement_def bindE_simps)
qed simp_all

lemma drawWires_attached:
  assumes "\<forall>n \<in> set nodes. NodeEl n \<in> set container"
  shows "drawWires L container nodes =
         Inr (filter (\<lambda>c. \<not> isWire c) container @ map WireEl (wiresOf L nodes))"
  unfolding drawWires_def
  by (rule wireLoop_attached) (use assms in auto)

lemma scenario_lane:
  "\<exists>lane nodes. createLane 0 [inputStage, lowShelfStage, outputStage] = Inr (lane, nodes)"
  by (simp add: createLane_def createNode_def formatNodeContent_def bindE_simps propertyOf_def
      inputStage_def lowShelfStage_def outputStage_def)

text \<open>
  C1. A lane built from a stage list of length K holds exactly K nodes and no wire; the
  frame callback of the lane succeeds and leaves in the lane's node container the same
  K nodes and exactly K - 1 wires (none for K = 0), the i-th of them computed from node
  i and node i + 1 of this lane, so that no wire joins nodes of two lanes.
\<close>

theorem lane_nodes_and_wires:
  assumes "createLane channelNo components = Inr (lane, nodes)"
  shows "\<exists>lane'. animationFrame L (lane, nodes) = Inr lane' \<and>
           nodesOf (nodeContainer lane) = nodes \<and>
           length (nodesOf (nodeContainer lane)) = length components \<and>
           wiresIn (nodeContainer lane) = [] \<and>
           nodesOf (nodeContainer lane') = nodes \<and>
           length (wiresIn (nodeContainer lane')) = length components - 1 \<and>
           (\<forall>i. Suc i < length components \<longrightarrow>
              wiresIn (nodeContainer lane') ! i = wireGeometry L (nodes ! i) (nodes ! Suc i))"
proof -
  note built = createLane_Inr [OF assms]
  have "drawWires L (map NodeEl nodes) nodes = Inr (map NodeEl nodes @ map WireEl (wiresOf L nodes))"
    using drawWires_attached [of nodes "map NodeEl nodes" L] by simp
  then have frame: "animationFrame L (lane, nodes) =
      Inr (lane\<lparr>nodeContainer := map NodeEl nodes @ map WireEl (wiresOf L nodes)\<rparr>)"
    by (simp add: animationFrame_def bindE_simps built(2))
  show ?thesis
    by (simp add: frame built(1,2) length_wiresOf nth_wiresOf)
qed

theorem lane_nodes_and_wires_witness:
  "\<exists>lane nodes lane'.
     createLane 0 [inputStage, lowShelfStage, outputStage] = Inr (lane, nodes) \<and>
     animationFrame rowLayout (lane, nodes) = Inr lane' \<and>
     length (nodesOf (nodeContainer lane)) = 3 \<and>
     length (wiresIn (nodeContainer lane')) = 2 \<and>
     wiresIn (nodeContainer lane') ! 0 = wireGeometry rowLayout (nodes ! 0) (nodes ! 1) \<and>
     wiresIn (nodeContainer lane') ! 1 = wireGeometry rowLayout (nodes ! 1) (nodes ! 2)"
proof -
  from scenario_lane obtain lane nodes where
    built: "createLane 0 [inputStage, lowShelfStage, outputStage] = Inr (lane, nodes)"
    by blast
  from lane_nodes_and_wires [OF built, of rowLayout] built show ?thesis
    by (auto simp: numeral_2_eq_2)
qed

text \<open>
  C2. In a lane built from a stage list, the x-offset of node i is 10 + 140 i: the first
  node is at 10 and every further node 140 (the node width 120 and the gap 20) to the
  right of the node before it.
\<close>

theorem lane_x_offsets:
  assumes "createLane channelNo components = Inr (lane, nodes)"
  shows "map style_left (nodesOf (nodeContainer lane)) =
           map (\<lambda>i. 10 + 140 * i) [0..<length components] \<and>
         (components \<noteq> [] \<longrightarrow> style_left (nodes ! 0) = 10) \<and>
         (\<forall>i. Suc i < length components \<longrightarrow>
            style_left (nodes ! Suc i) = style_left (nodes ! i) + (nodeWidth + nodeSpacing) \<and>
            style_left (nodes ! i) < style_left (nodes ! Suc i)) \<and>
         nodeWidth + nodeSpacing = 140"
proof -
  note built = createLane_Inr [OF assms]
  have left: "style_left (nodes ! i) = 10 + 140 * i" if "i < length components" for i
  proof -
    from that built(1,5)
    have "createNode (components ! i) channelNo (10 + i * (nodeWidth + nodeSpacing)) = Inr (nodes ! i)"
      by simp
    from createNode_style_left [OF this] show ?thesis
      by (simp add: nodeWidth_def nodeSpacing_def)
  qed
  have "map style_left nodes = map (\<lambda>i. 10 + 140 * i) [0..<length components]"
    by (rule nth_equalityI) (simp_all add: built(1) left)
  then show ?thesis
    using left by (simp add: built(2) nodeWidth_def nodeSpacing_def)
qed

theorem lane_x_offsets_witness:
  "\<exists>lane nodes.
     createLane 0 [inputStage, lowShelfStage, outputStage] = Inr (lane, nodes) \<and>
     map style_left (nodesOf (nodeContainer lane)) = [10, 150, 290]"
proof -
  from scenario_lane obtain lane nodes where
    built: "createLane 0 [inputStage, lowShelfStage, outputStage] = Inr (lane, nodes)"
    by blast
  from lane_x_offsets [OF built] built show ?thesis
    by (auto simp: upt_rec numeral_3_eq_3)
qed

lemma drawWiresEach_attached:
  "\<forall>n \<in> set nodes. NodeEl n \<in> set container \<Longrightarrow> layouts \<noteq> [] \<Longrightarrow>
   drawWiresEach layouts container nodes =
     Inr (filter (\<lambda>c. \<not> isWire c) container @ map WireEl (wiresOf (last layouts) nodes))"
proof (induction layouts arbitrary: container)
  case Nil
  then show ?case by simp
next
  case (Cons L layouts)
  let ?c = "filter (\<lambda>c. \<not> isWire c) container @ map WireEl (wiresOf L nodes)"
  have step: "drawWires L container nodes = Inr ?c"
    by (rule drawWires_attached) (use Cons.prems in simp)
  have attached: "\<forall>n \<in> set nodes. NodeEl n \<in> set ?c"
    using Cons.prems by auto
  show ?case
  proof (cases "layouts = []")
    case True
    then show ?thesis by (simp add: step bindE_simps)
  next
    case False
    from Cons.IH [OF attached False] False show ?thesis
      by (simp add: step bindE_simps)
  qed
qed

text \<open>
  C10. For nodes that are children of the container, calling \<open>drawWires\<close> any positive
  number of times, under whatever layouts, succeeds and leaves exactly N - 1 wires (none
  for N = 0) beside the unchanged nodes, whatever wires the container held before; and
  one more call under the last layout changes nothing.
\<close>

theorem drawWires_idempotent:
  assumes "\<forall>n \<in> set nodes. NodeEl n \<in> set container" and "layouts \<noteq> []"
  shows "\<exists>container'. drawWiresEach layouts container nodes = Inr container' \<and>
           length (wiresIn container') = length nodes - 1 \<and>
           wiresIn container' = wiresOf (last layouts) nodes \<and>
           nodesOf container' = nodesOf container \<and>
           drawWires (last layouts) container' nodes = Inr container'"
proof -
  let ?c = "filter (\<lambda>c. \<not> isWire c) container @ map WireEl (wiresOf (last layouts) nodes)"
  have each: "drawWiresEach layouts container nodes = Inr ?c"
    by (rule drawWiresEach_attached [OF assms])
  have "\<forall>n \<in> set nodes. NodeEl n \<in> set ?c"
    using assms(1) by auto
  from drawWires_attached [OF this, of "last layouts"]
  have again: "drawWires (last layouts) ?c nodes = Inr ?c"
    by simp
  have "wiresIn (filter (\<lambda>c. \<not> isWire c) container) = []"
    by (induction container rule: wiresIn.induct) simp_all
  then show ?thesis
    by (intro exI [of _ ?c]) (simp add: each again length_wiresOf)
qed

theorem drawWires_idempotent_witness:
  "\<exists>lane nodes container'.
     createLane 0 [inputStage, lowShelfStage, outputStage] = Inr (lane, nodes) \<and>
     drawWiresEach [rowLayout, rowLayout]
       (nodeContainer lane @
        [WireEl \<lparr> wire_left = 0, wire_top = 0, wire_width = 0, wire_rotate = 0 \<rparr>]) nodes =
       Inr container' \<and>
     length (wiresIn container') = 2 \<and>
     nodesOf container' = nodes \<and>
     drawWires rowLayout container' nodes = Inr container'"
proof -
  let ?stale = "[WireEl \<lparr> wire_left = 0, wire_top = 0, wire_width = 0, wire_rotate = 0 \<rparr>]"
  from scenario_lane obtain lane nodes where
    built: "createLane 0 [inputStage, lowShelfStage, outputStage] = Inr (lane, nodes)"
    by blast
  note shape = createLane_Inr(1,2) [OF built]
  have attached: "\<forall>n \<in> set nodes. NodeEl n \<in> set (nodeContainer lane @ ?stale)"
    by (simp add: shape(2))
  have "[rowLayout, rowLayout] \<noteq> []"
    by simp
  from drawWires_idempotent [OF attached this] obtain container' where
    "drawWiresEach [rowLayout, rowLayout] (nodeContainer lane @ ?stale) nodes = Inr container'"
    "length (wiresIn container') = length nodes - 1"
    "nodesOf container' = nodesOf (nodeContainer lane @ ?stale)"
    "drawWires (last [rowLayout, rowLayout]) container' nodes = Inr container'"
    by blast
  with built shape show ?thesis
    by (intro exI [of _ lane] exI [of _ nodes] exI [of _ container']) simp
qed

subsection \<open>Render passes\<close>

lemma formatNodeContent_stageDescriptor:
  assumes "stageDescriptor c"
  shows "\<exists>html. formatNodeContent c = Inr html"
proof -
  from assms obtain kvs t where c: "c = JObj kvs" and t: "propertyOf kvs ''type'' = JStr t"
    by (auto simp: stageDescriptor_def split: jsval.splits)
  consider (io) "t = ''input'' \<or> t = ''output''" | (mixer) "t = ''mixer''" | (filter) "t = ''filter''"
    | (other) "t \<noteq> ''input''" "t \<noteq> ''output''" "t \<noteq> ''mixer''" "t \<noteq> ''filter''"
    by blast
  then show ?thesis
  proof cases
    case io
    with assms c t have "isObject (propertyOf kvs ''device'')"
      by (auto simp: stageDescriptor_def)
    then obtain dkvs where "propertyOf kvs ''device'' = JObj dkvs"
      by (cases "propertyOf kvs ''device''") simp_all
    with io c t show ?thesis
      by (auto simp add: formatNodeContent_def bindE_simps)
  next
    case mixer
    with assms c t have "isArray (propertyOf kvs ''sources'')"
      by (auto simp: stageDescriptor_def)
    then obtain vs where "propertyOf kvs ''sources'' = JArr vs"
      by (cases "propertyOf kvs ''sources''") simp_all
    with mixer c t show ?thesis
      by (simp add: formatNodeContent_def bindE_simps)
  next
    case filter
    show ?thesis
    proof (cases "find (\<lambda>k. k \<noteq> ''type'') (map fst kvs)")
      case None
      with filter c t show ?thesis
        by (simp add: formatNodeContent_def bindE_simps)
    next
      case (Some filterName)
      with assms c t filter obtain fkvs pkvs where
        "propertyOf kvs filterName = JObj fkvs" "propertyOf fkvs ''parameters'' = JObj pkvs"
        by (auto simp: stageDescriptor_def split: jsval.splits elim: isObject.elims)
      with filter c t Some show ?thesis
        by (simp add: formatNodeContent_def bindE_simps)
    qed
  next
    case other
    with c t show ?thesis
      by (simp add: formatNodeContent_def bindE_simps)
  qed
qed

lemma createNode_stageDescriptor:
  assumes "stageDescriptor c"
  shows "\<exists>n. createNode c channelNo xPos = Inr n"
proof -
  from assms obtain kvs t where c: "c = JObj kvs" and t: "propertyOf kvs ''type'' = JStr t"
    by (auto simp: stageDescriptor_def split: jsval.splits)
  from formatNodeContent_stageDescriptor [OF assms] obtain html where "formatNodeContent c = Inr html" ..
  with c t show ?thesis
    by (simp add: createNode_def bindE_simps)
qed

lemma nodeLoop_stageDescriptor:
  "\<forall>c \<in> set components. stageDescriptor c \<Longrightarrow>
   \<exists>r. nodeLoop channelNo xPos components container nodes = Inr r"
proof (induction components arbitrary: xPos container nodes)
  case Nil
  then show ?case by simp
next
  case (Cons c rest)
  from createNode_stageDescriptor [of c channelNo xPos] Cons.prems
  obtain n where "createNode c channelNo xPos = Inr n" by auto
  with Cons show ?case by (simp add: bindE_simps)
qed

lemma createLane_stageDescriptor:
  assumes "\<forall>c \<in> set components. stageDescriptor c"
  shows "\<exists>lane nodes. createLane channelNo components = Inr (lane, nodes)"
proof -
  from nodeLoop_stageDescriptor [OF assms, of channelNo 10 "[]" "[]"]
  obtain container nodes where "nodeLoop channelNo 10 components [] [] = Inr (container, nodes)"
    by auto
  then show ?thesis by (simp add: createLane_def bindE_simps)
qed

lemma buildLanes_stageDescriptor:
  "\<forall>components \<in> set channels. \<forall>c \<in> set components. stageDescriptor c \<Longrightarrow>
   \<exists>ls. buildLanes n channels = Inr ls"
proof (induction channels arbitrary: n)
  case Nil
  then show ?case by simp
next
  case (Cons components rest)
  from createLane_stageDescriptor [of components n] Cons.prems
  obtain lane nodes where "createLane n components = Inr (lane, nodes)" by auto
  moreover have "\<forall>components \<in> set rest. \<forall>c \<in> set components. stageDescriptor c"
    using Cons.prems by simp
  from Cons.IH [OF this, of "Suc n"] obtain ls where "buildLanes (Suc n) rest = Inr ls" ..
  ultimately show ?case by (simp add: bindE_simps)
qed

lemma buildLanes_Inr:
  "buildLanes n channels = Inr ls \<Longrightarrow>
   length ls = length channels \<and>
   (\<forall>i < length channels.
      laneLabel (ls ! i) = ''Channel '' @ numToString (n + i) \<and>
      lane_data_channel (ls ! i) = n + i \<and>
      (\<exists>nodes. createLane (n + i) (channels ! i) = Inr (ls ! i, nodes)))"
proof (induction channels arbitrary: n ls)
  case Nil
  then show ?case by simp
next
  case (Cons components rest)
  from Cons.prems obtain lane nodes ls' where
    lane: "createLane n components = Inr (lane, nodes)" and
    rest: "buildLanes (Suc n) rest = Inr ls'" and
    ls: "ls = lane # ls'"
    by (auto simp: bindE_Inr_iff)
  note here = createLane_Inr(3,4) [OF lane]
  note IH = Cons.IH [OF rest]
  show ?case
  proof (intro conjI allI impI)
    show "length ls = length (components # rest)" using IH ls by simp
  next
    fix i assume "i < length (components # rest)"
    then show "laneLabel (ls ! i) = ''Channel '' @ numToString (n + i)"
      using IH ls here by (cases i) simp_all
  next
    fix i assume "i < length (components # rest)"
    then show "lane_data_channel (ls ! i) = n + i"
      using IH ls here by (cases i) simp_all
  next
    fix i assume "i < length (components # rest)"
    then show "\<exists>nodes. createLane (n + i) ((components # rest) ! i) = Inr (ls ! i, nodes)"
      using IH ls lane by (cases i) simp_all
  qed
qed

lemma appendLanes:
  "buildLanes n channels = Inr ls \<Longrightarrow>
   renderLanes n channels s =
     (Inr (), s\<lparr>editor := map_option (\<lambda>cs. cs @ map LaneEl ls) (editor s), lanes := lanes s @ ls\<rparr>)"
proof (induction channels arbitrary: n ls s)
  case Nil
  then show ?case by (simp add: option.map_ident)
next
  case (Cons components rest)
  from Cons.prems obtain lane nodes ls' where
    lane: "createLane n components = Inr (lane, nodes)" and
    rest: "buildLanes (Suc n) rest = Inr ls'" and
    ls: "ls = lane # ls'"
    by (auto simp: bindE_Inr_iff)
  show ?case
    by (simp add: lane Cons.IH [OF rest] ls option.map_comp comp_def)
qed

lemma stageDescriptor_inputStage: "stageDescriptor inputStage"
  by (simp add: stageDescriptor_def inputStage_def propertyOf_def)

lemma createLane_inputStage: "createLane 0 [inputStage] = Inr (inputLane, [inputNode])"
  by (simp add: createLane_def createNode_inputStage bindE_simps inputLane_def
      numToString.simps laneHeight_def)

lemma buildLanes_inputStage: "buildLanes 0 [[inputStage]] = Inr [inputLane]"
  by (simp add: createLane_inputStage bindE_simps)

text \<open>
  C3. When the editor element exists and the linearized configuration has N channels of
  stage descriptors, the render pass completes and leaves exactly N lanes, in the
  variable \<open>lanes\<close> and as the children of the editor; the lane at index i belongs to
  channel i and is labelled \<open>Channel i\<close>.
\<close>

theorem renderPipeline_lanes:
  assumes "editor s = Some cs"
    and "linearizeConfig d = Inr channels"
    and "\<forall>components \<in> set channels. \<forall>c \<in> set components. stageDescriptor c"
  shows "\<exists>s'. renderPipeline d s = (Inr (), s') \<and>
           length (lanes s') = length channels \<and>
           editor s' = Some (map LaneEl (lanes s')) \<and>
           (\<forall>i < length channels.
              laneLabel (lanes s' ! i) = ''Channel '' @ numToString i \<and>
              lane_data_channel (lanes s' ! i) = i)"
proof -
  from buildLanes_stageDescriptor [OF assms(3), of 0] obtain ls where
    ls: "buildLanes 0 channels = Inr ls" ..
  have "renderPipeline d s = (Inr (), s\<lparr>editor := Some (map LaneEl ls), lanes := ls\<rparr>)"
    by (simp add: renderPipeline_def assms(1,2) appendLanes [OF ls])
  with buildLanes_Inr [OF ls] show ?thesis by simp
qed

theorem renderPipeline_lanes_witness:
  "\<exists>s'. renderPipeline oneChannelDsp \<lparr> editor = Some [ErrorPanel ''stale''], lanes = [] \<rparr> = (Inr (), s') \<and>
        length (lanes s') = 1 \<and>
        editor s' = Some (map LaneEl (lanes s')) \<and>
        laneLabel (lanes s' ! 0) = ''Channel 0'' \<and>
        lane_data_channel (lanes s' ! 0) = 0"
proof -
  have "\<forall>components \<in> set [[inputStage]]. \<forall>c \<in> set components. stageDescriptor c"
    by (simp add: stageDescriptor_inputStage)
  from renderPipeline_lanes [of "\<lparr> editor = Some [ErrorPanel ''stale''], lanes = [] \<rparr>"
      "[ErrorPanel ''stale'']" oneChannelDsp "[[inputStage]]", OF _ _ this]
  show ?thesis
    by (simp add: oneChannelDsp_def numToString.simps)
qed

subsection \<open>Failures\<close>

lemma refresh_once:
  "refreshPipeline (Some oneChannelDsp) \<lparr> editor = Some [], lanes = [] \<rparr> =
     (Inr (), \<lparr> editor = Some [LaneEl inputLane], lanes = [inputLane] \<rparr>)"
  by (simp add: refreshPipeline_def renderPipeline_def oneChannelDsp_def createLane_inputStage)

text \<open>
  The initialisation catches a failed download: the editor shows the message of the
  error and the variable \<open>lanes\<close> is as it was, empty on a fresh page.
\<close>

lemma roomOnLoad_download_failure:
  assumes "connected d" and "downloadConfig d = Inl e" and "editor s = Some cs"
  shows "roomOnLoad (Some d) s =
           s\<lparr>editor := Some [ErrorPanel (''Error loading DSP configuration: '' @ message e)]\<rparr>"
  using assms by (simp add: roomOnLoad_def showError_def)

lemma roomOnLoad_linearize_failure:
  assumes "connected d" and "downloadConfig d = Inr ()" and "linearizeConfig d = Inl e"
    and "editor s = Some cs"
  shows "roomOnLoad (Some d) s =
           \<lparr> editor = Some [ErrorPanel (''Error loading DSP configuration: '' @ message e)], lanes = [] \<rparr>"
  using assms by (simp add: roomOnLoad_def renderPipeline_def showError_def)

text \<open>
  C4 fails on \<open>refreshPipeline\<close>, which has no handler of its own. After a render of one
  channel, a refresh whose download fails rejects with the error and leaves the editor
  and \<open>lanes\<close> as they were: the old lane stays and no message is shown. A refresh whose
  linearization fails leaves both empty, again without a message.
\<close>

theorem refreshPipeline_failure:
  "refreshPipeline
     (Some \<lparr> connected = True, downloadConfig = Inl (DSPError ''timeout''),
             linearizeConfig = Inr [[inputStage]] \<rparr>)
     \<lparr> editor = Some [LaneEl inputLane], lanes = [inputLane] \<rparr> =
   (Inl (DSPError ''timeout''), \<lparr> editor = Some [LaneEl inputLane], lanes = [inputLane] \<rparr>) \<and>
   refreshPipeline
     (Some \<lparr> connected = True, downloadConfig = Inr (),
             linearizeConfig = Inl (DSPError ''bad config'') \<rparr>)
     \<lparr> editor = Some [LaneEl inputLane], lanes = [inputLane] \<rparr> =
   (Inl (DSPError ''bad config''), \<lparr> editor = Some [], lanes = [] \<rparr>)"
  by (simp add: refreshPipeline_def renderPipeline_def)

subsection \<open>Two refresh calls\<close>

text \<open>A call that runs alone, its three pieces one after the other, is \<open>refreshPipeline\<close>.\<close>

lemma refreshPipeline_resume:
  "resume d (resume d (resume d (Start, s))) =
     (case refreshPipeline (Some d) s of
        (Inl e, s') \<Rightarrow> (Failed e, s')
      | (Inr u, s') \<Rightarrow> (Finished, s'))"
  by (simp add: refreshPipeline_def renderPipeline_def split: sum.splits option.splits prod.splits)

lemma interleavings_complete:
  "sched \<in> set (interleavings a b) \<longleftrightarrow> length (filter Not sched) = a \<and> length (filter id sched) = b"
proof (induction a b arbitrary: sched rule: interleavings.induct)
  case 1
  then show ?case by (cases sched) auto
next
  case (2 a)
  then show ?case by (cases sched) auto
next
  case (3 b)
  then show ?case by (cases sched) auto
next
  case (4 a b)
  then show ?case by (cases sched) auto
qed

lemma interleavings_3_3:
  "set (interleavings 3 3) =
    {[False, False, False, True, True, True],
     [False, False, True, False, True, True],
     [False, False, True, True, False, True],
     [False, False, True, True, True, False],
     [False, True, False, False, True, True],
     [False, True, False, True, False, True],
     [False, True, False, True, True, False],
     [False, True, True, False, False, True],
     [False, True, True, False, True, False],
     [False, True, True, True, False, False],
     [True, False, False, False, True, True],
     [True, False, False, True, False, True],
     [True, False, False, True, True, False],
     [True, False, True, False, False, True],
     [True, False, True, False, True, False],
     [True, False, True, True, False, False],
     [True, True, False, False, False, True],
     [True, True, False, False, True, False],
     [True, True, False, True, False, False],
     [True, True, True, False, False, False]}"
  by (simp add: eval_nat_numeral)

text \<open>
  C9, as amended. Two refresh calls whose fetches succeed both complete under every
  schedule of their six pieces, and the editor then holds the lanes of each render pass
  that appended after the last clearing of the editor, in the order of appending (and
  \<open>lanes\<close> holds the same): the lanes of one pass when the later pass cleared after the
  earlier one appended, the lanes of both passes when both cleared before either
  appended.
\<close>

theorem refresh_twice:
  assumes "editor s = Some cs"
    and "downloadConfig dA = Inr ()" and "linearizeConfig dA = Inr chA" and "buildLanes 0 chA = Inr lsA"
    and "downloadConfig dB = Inr ()" and "linearizeConfig dB = Inr chB" and "buildLanes 0 chB = Inr lsB"
    and "length (filter Not sched) = 3" and "length (filter id sched) = 3"
  shows "\<exists>s'. run2 dA dB sched (Start, Start, s) = (Finished, Finished, s') \<and>
           lanes s' = concat (map (\<lambda>second. if second then lsB else lsA) (visibleCalls sched)) \<and>
           editor s' = Some (map LaneEl (lanes s'))"
proof -
  note facts = assms(1,2,3,5,6) appendLanes [OF assms(4)] appendLanes [OF assms(7)] visibleCalls_def
  from assms(8,9) have "sched \<in> set (interleavings 3 3)"
    by (simp only: interleavings_complete)
  then show ?thesis
    unfolding interleavings_3_3
    by (elim insertE emptyE) (simp_all add: facts)
qed

theorem refresh_twice_witness:
  "\<exists>s'. run2 oneChannelDsp oneChannelDsp [False, True, False, False, True, True]
          (Start, Start, \<lparr> editor = Some [], lanes = [] \<rparr>) = (Finished, Finished, s') \<and>
        lanes s' = [inputLane] \<and>
        editor s' = Some [LaneEl inputLane]"
proof -
  have vis: "visibleCalls [False, True, False, False, True, True] = [True]"
    by (simp add: visibleCalls_def)
  from refresh_twice [of "\<lparr> editor = Some [], lanes = [] \<rparr>" "[]" oneChannelDsp "[[inputStage]]" "[inputLane]"
      oneChannelDsp "[[inputStage]]" "[inputLane]" "[False, True, False, False, True, True]"]
  obtain s' where
    "run2 oneChannelDsp oneChannelDsp [False, True, False, False, True, True]
       (Start, Start, \<lparr> editor = Some [], lanes = [] \<rparr>) = (Finished, Finished, s')"
    "lanes s' = concat (map (\<lambda>second. if second then [inputLane] else [inputLane])
       (visibleCalls [False, True, False, False, True, True]))"
    "editor s' = Some (map LaneEl (lanes s'))"
    unfolding oneChannelDsp_def using buildLanes_inputStage by fastforce
  then show ?thesis
    by (intro exI [of _ s']) (simp add: vis)
qed

text \<open>
  Both calls clear the editor before either appends: the single channel of the
  configuration ends up with two lanes, where one call alone leaves one.
\<close>

theorem refresh_twice_counterexample:
  "run2 oneChannelDsp oneChannelDsp [False, True, False, True, False, True]
     (Start, Start, \<lparr> editor = Some [], lanes = [] \<rparr>) =
   (Finished, Finished,
    \<lparr> editor = Some [LaneEl inputLane, LaneEl inputLane], lanes = [inputLane, inputLane] \<rparr>) \<and>
   refreshPipeline (Some oneChannelDsp) \<lparr> editor = Some [], lanes = [] \<rparr> =
   (Inr (), \<lparr> editor = Some [LaneEl inputLane], lanes = [inputLane] \<rparr>)"
  by (simp add: refreshPipeline_def renderPipeline_def oneChannelDsp_def createLane_inputStage)

end
